theory Spec2Isabelle
  imports
    Complex_Main
    "HOL-Library.List_Lexorder"
    "HOL-Library.Char_ord"
    "HOL-Library.Product_Lexorder"
    "HOL-Library.Multiset"
begin

section \<open>Data model\<close>

text \<open>
  The program works on pandas data frames. A frame is modelled as the list of its rows, in
  frame order; a row is a record with one field per column of the loader's schema.
  Monetary columns are floats in the program; here they are exact reals, so decimal
  arithmetic is exact and rounding error of binary floating point is not part of the model.
  A result that is not a finite number in the program (NaN, infinity) is \<open>None\<close>.

  Only \<open>Customer_Age_Group\<close> can be missing (the generator blanks that column only), so it is
  the one optional column. The six columns that cleaning adds are absent from a raw frame and
  present in a cleaned one: \<open>Derived\<close> is \<open>None\<close> for a row of a frame without them.
\<close>

record date =
  year_of :: int
  month_of :: nat
  day_of :: nat

record derived_cols =
  Year :: int
  Month :: nat
  Month_Name :: string
  Quarter :: nat
  Day_of_Week :: string
  Revenue_After_Discount :: real

record sales_row =
  Order_ID :: string
  Order_Date :: date
  Customer_ID :: string
  Product_Name :: string
  Category :: string
  Quantity :: int
  Unit_Price :: real
  Total_Amount :: real
  Discount :: real
  Region :: string
  Payment_Method :: string
  Customer_Age_Group :: "string option"
  Derived :: "derived_cols option"

type_synonym frame = "sales_row list"

datatype py_error = IndexError | ValueError | KeyError

section \<open>Library operations the program calls\<close>

text \<open>\<open>Series.sum\<close> is 0 on an empty column; \<open>Series.mean\<close> of an empty column is NaN.\<close>

definition mean :: "real list \<Rightarrow> real option" where
  "mean xs = (if xs = [] then None else Some (sum_list xs / real (length xs)))"

text \<open>Float division: a zero denominator gives no finite number.\<close>

definition np_divide :: "real \<Rightarrow> real \<Rightarrow> real option" where
  "np_divide a b = (if b = 0 then None else Some (a / b))"

text \<open>\<open>nunique\<close>: the number of distinct values of a column.\<close>

definition nunique :: "'a list \<Rightarrow> nat" where
  "nunique xs = length (remdups xs)"

text \<open>
  \<open>round(2)\<close>: the value is scaled by 100, rounded to the nearest integer with halves going
  to the even neighbour, and scaled back.
\<close>

definition round_half_even :: "real \<Rightarrow> int" where
  "round_half_even y =
     (let f = \<lfloor>y\<rfloor>; d = y - of_int f
      in if d < 1 / 2 then f
         else if d > 1 / 2 then f + 1
         else if even f then f else f + 1)"

definition round2 :: "real \<Rightarrow> real" where
  "round2 x = of_int (round_half_even (x * 100)) / 100"

text \<open>
  \<open>Series.quantile(q)\<close> with the default linear interpolation: on the sorted values, the
  position is \<open>(n - 1) * q\<close>, and the result lies between the two order statistics around
  it. On an empty column the result is NaN.
\<close>

definition quantile :: "real list \<Rightarrow> real \<Rightarrow> real option" where
  "quantile xs q =
     (if xs = [] then None
      else let s = sort xs;
               h = real (length s - 1) * q;
               j = nat \<lfloor>h\<rfloor>;
               g = h - of_int \<lfloor>h\<rfloor>
           in Some (s ! j + (s ! min (j + 1) (length s - 1) - s ! j) * g))"

text \<open>
  \<open>DataFrame.duplicated()\<close> marks a row that equals an earlier row in every column;
  \<open>drop_duplicates()\<close> keeps the unmarked rows, in order.
\<close>

fun duplicated_from :: "'a list \<Rightarrow> 'a list \<Rightarrow> bool list" where
  "duplicated_from seen [] = []"
| "duplicated_from seen (r # rs) = (r \<in> set seen) # duplicated_from (r # seen) rs"

definition duplicated :: "'a list \<Rightarrow> bool list" where
  "duplicated df = duplicated_from [] df"

definition drop_duplicates :: "'a list \<Rightarrow> 'a list" where
  "drop_duplicates df = map fst (filter (\<lambda>(r, d). \<not> d) (zip df (duplicated df)))"

text \<open>The calendar accessors of a date column (\<open>dt.month_name\<close>, \<open>dt.quarter\<close>, \<open>dt.day_name\<close>).\<close>

definition month_name :: "nat \<Rightarrow> string" where
  "month_name m =
     (if 1 \<le> m \<and> m \<le> 12
      then [''January'', ''February'', ''March'', ''April'', ''May'', ''June'', ''July'',
            ''August'', ''September'', ''October'', ''November'', ''December''] ! (m - 1)
      else [])"

definition quarter :: "nat \<Rightarrow> nat" where
  "quarter m = (m - 1) div 3 + 1"

definition day_name :: "date \<Rightarrow> string" where
  "day_name d =
     (let m = month_of d;
          y = (if m < 3 then year_of d - 1 else year_of d);
          t = [0, 3, 2, 5, 0, 3, 5, 1, 4, 6, 2, 4 :: int] ! ((m - 1) mod 12);
          w = (y + y div 4 - y div 100 + y div 400 + t + int (day_of d)) mod 7
      in [''Sunday'', ''Monday'', ''Tuesday'', ''Wednesday'', ''Thursday'', ''Friday'',
          ''Saturday''] ! nat w)"

section \<open>Cleaning (data\_cleaner.py)\<close>

text \<open>
  \<open>clean_sales_data\<close> prints what each step did and returns the cleaned frame. The three
  counts it prints are returned here as a report beside the frame.
\<close>

record cleaning_report =
  missing_filled :: nat
  duplicates_removed :: nat
  outliers_capped :: nat

text \<open>Step 1: if any cell is missing, the missing age groups become \<open>Unknown\<close>.\<close>

definition isnull_sum :: "frame \<Rightarrow> nat" where
  "isnull_sum df = length (filter (\<lambda>r. Customer_Age_Group r = None) df)"

definition fillna_age_group :: "frame \<Rightarrow> frame" where
  "fillna_age_group df =
     map (\<lambda>r. case Customer_Age_Group r of
                 None \<Rightarrow> r\<lparr>Customer_Age_Group := Some ''Unknown''\<rparr>
               | Some _ \<Rightarrow> r) df"

definition handle_missing :: "frame \<Rightarrow> frame \<times> nat" where
  "handle_missing df =
     (let initial_missing = isnull_sum df
      in if initial_missing > 0 then (fillna_age_group df, initial_missing)
         else (df, initial_missing))"

text \<open>Step 2: duplicates are counted, and dropped when there are any.\<close>

definition remove_duplicates :: "frame \<Rightarrow> frame \<times> nat" where
  "remove_duplicates df =
     (let duplicates = length (filter id (duplicated df))
      in if duplicates > 0 then (drop_duplicates df, duplicates) else (df, duplicates))"

text \<open>
  Step 3: the bounds come from the quartiles of \<open>Total_Amount\<close>; rows outside are counted,
  and when there are any, the amounts below the lower bound are set to it and then the
  amounts above the upper bound are set to it. With NaN quartiles (empty frame) every
  comparison is false and nothing is counted.
\<close>

definition handle_outliers :: "frame \<Rightarrow> frame \<times> nat" where
  "handle_outliers df =
     (case (quantile (map Total_Amount df) (1 / 4), quantile (map Total_Amount df) (3 / 4)) of
        (Some Q1, Some Q3) \<Rightarrow>
          (let IQR = Q3 - Q1;
               lower_bound = Q1 - 1.5 * IQR;
               upper_bound = Q3 + 1.5 * IQR;
               outliers = length (filter (\<lambda>r. Total_Amount r < lower_bound
                                              \<or> Total_Amount r > upper_bound) df)
           in if outliers > 0
              then (map (\<lambda>r. if Total_Amount r > upper_bound
                              then r\<lparr>Total_Amount := upper_bound\<rparr> else r)
                     (map (\<lambda>r. if Total_Amount r < lower_bound
                                then r\<lparr>Total_Amount := lower_bound\<rparr> else r) df),
                    outliers)
              else (df, outliers))
      | _ \<Rightarrow> (df, 0))"

text \<open>
  Steps 4 and 5: the date and quantity columns already have their types (the loader parses
  dates, quantities are integers), and the derived columns are computed from the date, the
  possibly capped amount and the discount, replacing earlier ones of the same name.
\<close>

definition derive :: "sales_row \<Rightarrow> derived_cols" where
  "derive r =
     \<lparr>Year = year_of (Order_Date r),
      Month = month_of (Order_Date r),
      Month_Name = month_name (month_of (Order_Date r)),
      Quarter = quarter (month_of (Order_Date r)),
      Day_of_Week = day_name (Order_Date r),
      Revenue_After_Discount = Total_Amount r - Discount r\<rparr>"

definition add_derived :: "frame \<Rightarrow> frame" where
  "add_derived df = map (\<lambda>r. r\<lparr>Derived := Some (derive r)\<rparr>) df"

definition clean_sales_data :: "frame \<Rightarrow> frame \<times> cleaning_report" where
  "clean_sales_data df =
     (let (df1, initial_missing) = handle_missing df;
          (df2, duplicates) = remove_duplicates df1;
          (df3, outliers) = handle_outliers df2
      in (add_derived df3,
          \<lparr>missing_filled = initial_missing,
           duplicates_removed = duplicates,
           outliers_capped = outliers\<rparr>))"

section \<open>Key performance indicators (analyzer.py)\<close>

record kpis =
  Total_Revenue :: real
  Total_Orders :: nat
  Average_Order_Value :: "real option"
  Total_Quantity_Sold :: int
  Average_Quantity_per_Order :: "real option"
  Total_Discount_Given :: real
  Discount_Rate :: "real option"
  Unique_Customers :: nat
  Unique_Products :: nat
  Unique_Categories :: nat

definition calculate_kpis :: "frame \<Rightarrow> kpis" where
  "calculate_kpis df =
     \<lparr>Total_Revenue = sum_list (map Total_Amount df),
      Total_Orders = length df,
      Average_Order_Value = mean (map Total_Amount df),
      Total_Quantity_Sold = sum_list (map Quantity df),
      Average_Quantity_per_Order = mean (map (\<lambda>r. real_of_int (Quantity r)) df),
      Total_Discount_Given = sum_list (map Discount df),
      Discount_Rate =
        (if sum_list (map Total_Amount df) > 0
         then map_option (\<lambda>q. q * 100)
                (np_divide (sum_list (map Discount df)) (sum_list (map Total_Amount df)))
         else Some 0),
      Unique_Customers = nunique (map Customer_ID df),
      Unique_Products = nunique (map Product_Name df),
      Unique_Categories = nunique (map Category df)\<rparr>"

section \<open>Grouped analyses (analyzer.py)\<close>

text \<open>
  \<open>groupby\<close> with the default options: one group per distinct key, the groups in ascending
  key order, each group holding its rows in frame order.
\<close>

definition groupby :: "('r \<Rightarrow> 'k::linorder) \<Rightarrow> 'r list \<Rightarrow> ('k \<times> 'r list) list" where
  "groupby key df = map (\<lambda>k. (k, filter (\<lambda>r. key r = k) df)) (sort (remdups (map key df)))"

text \<open>
  \<open>sort_values(col, ascending=False)\<close> is called with the default sorting kind, which is not
  a stable sort: the result is some rearrangement of the table that is descending in the
  column, and the program does not determine the order of rows with equal values. The
  operation is therefore a relation between the table and its possible results.
\<close>

definition sort_values_desc :: "('r \<Rightarrow> real) \<Rightarrow> 'r list \<Rightarrow> 'r list \<Rightarrow> bool" where
  "sort_values_desc col t t' \<longleftrightarrow> mset t' = mset t \<and> sorted_wrt (\<lambda>a b. col a \<ge> col b) t'"

text \<open>\<open>head(n)\<close>: the first \<open>n\<close> rows, and for a negative \<open>n\<close> all rows but the last \<open>-n\<close>.\<close>

definition head :: "int \<Rightarrow> 'a list \<Rightarrow> 'a list" where
  "head n t = (if 0 \<le> n then take (nat n) t else take (length t - nat (- n)) t)"

subsection \<open>By category and by region\<close>

record 'k grp_stats =
  grp_key :: 'k
  grp_Total_Revenue :: real
  grp_Avg_Order_Value :: "real option"
  grp_Order_Count :: nat
  grp_Total_Quantity :: int

record 'k grp_row = "'k grp_stats" +
  grp_Revenue_Share :: "real option"

definition agg_revenue :: "(sales_row \<Rightarrow> 'k::linorder) \<Rightarrow> frame \<Rightarrow> 'k grp_stats list" where
  "agg_revenue key df =
     map (\<lambda>(k, g).
            \<lparr>grp_key = k,
             grp_Total_Revenue = round2 (sum_list (map Total_Amount g)),
             grp_Avg_Order_Value = map_option round2 (mean (map Total_Amount g)),
             grp_Order_Count = length g,
             grp_Total_Quantity = sum_list (map Quantity g)\<rparr>)
         (groupby key df)"

definition add_revenue_share :: "'k grp_stats list \<Rightarrow> 'k grp_row list" where
  "add_revenue_share t =
     map (\<lambda>r. \<lparr>grp_key = grp_key r,
                grp_Total_Revenue = grp_Total_Revenue r,
                grp_Avg_Order_Value = grp_Avg_Order_Value r,
                grp_Order_Count = grp_Order_Count r,
                grp_Total_Quantity = grp_Total_Quantity r,
                grp_Revenue_Share =
                  map_option (\<lambda>q. round2 (q * 100))
                    (np_divide (grp_Total_Revenue r) (sum_list (map grp_Total_Revenue t)))\<rparr>) t"

inductive analyze_by_category :: "frame \<Rightarrow> string grp_row list \<Rightarrow> bool" where
  "sort_values_desc grp_Total_Revenue (agg_revenue Category df) t
     \<Longrightarrow> analyze_by_category df (add_revenue_share t)"

inductive analyze_by_region :: "frame \<Rightarrow> string grp_row list \<Rightarrow> bool" where
  "sort_values_desc grp_Total_Revenue (agg_revenue Region df) t
     \<Longrightarrow> analyze_by_region df (add_revenue_share t)"

subsection \<open>By time\<close>

text \<open>
  The time tables group by the derived columns; on a frame that lacks them the lookup of
  the column fails. A frame is the list of its rows, so a frame without rows does not say
  whether it has the derived columns: the model answers for it as for a cleaned frame (three
  empty tables), whereas the program raises \<open>KeyError\<close> on a raw frame without rows.
\<close>

record 'k period_row =
  per_key :: 'k
  per_Revenue :: real
  per_Orders :: nat
  per_Quantity :: int

record time_tables =
  monthly :: "(int \<times> nat) period_row list"
  quarterly :: "(int \<times> nat) period_row list"
  yearly :: "int period_row list"

definition agg_period :: "(sales_row \<Rightarrow> 'k::linorder) \<Rightarrow> frame \<Rightarrow> 'k period_row list" where
  "agg_period key df =
     map (\<lambda>(k, g).
            \<lparr>per_key = k,
             per_Revenue = round2 (sum_list (map Total_Amount g)),
             per_Orders = length g,
             per_Quantity = sum_list (map Quantity g)\<rparr>)
         (groupby key df)"

definition analyze_by_time :: "frame \<Rightarrow> py_error + time_tables" where
  "analyze_by_time df =
     (if list_all (\<lambda>r. Derived r \<noteq> None) df
      then Inr \<lparr>monthly = agg_period (\<lambda>r. (Year (the (Derived r)), Month (the (Derived r)))) df,
                quarterly =
                  agg_period (\<lambda>r. (Year (the (Derived r)), Quarter (the (Derived r)))) df,
                yearly = agg_period (\<lambda>r. Year (the (Derived r))) df\<rparr>
      else Inl KeyError)"

subsection \<open>Top products\<close>

record prod_row =
  prod_key :: "string \<times> string"
  prod_Total_Revenue :: real
  prod_Order_Count :: nat
  prod_Total_Quantity :: int
  prod_Avg_Price :: "real option"

definition agg_products :: "frame \<Rightarrow> prod_row list" where
  "agg_products df =
     map (\<lambda>(k, g).
            \<lparr>prod_key = k,
             prod_Total_Revenue = round2 (sum_list (map Total_Amount g)),
             prod_Order_Count = length g,
             prod_Total_Quantity = sum_list (map Quantity g),
             prod_Avg_Price = map_option round2 (mean (map Unit_Price g))\<rparr>)
         (groupby (\<lambda>r. (Product_Name r, Category r)) df)"

inductive analyze_top_products :: "frame \<Rightarrow> int \<Rightarrow> prod_row list \<Rightarrow> bool" where
  "sort_values_desc prod_Total_Revenue (agg_products df) t
     \<Longrightarrow> analyze_top_products df top_n (head top_n t)"

subsection \<open>Customer demographics\<close>

text \<open>Rows whose grouping key is missing belong to no group.\<close>

record demo_row =
  demo_key :: string
  demo_Unique_Customers :: nat
  demo_Total_Revenue :: real
  demo_Avg_Order_Value :: "real option"
  demo_Total_Orders :: nat

definition agg_demographics :: "frame \<Rightarrow> demo_row list" where
  "agg_demographics df =
     map (\<lambda>(k, g).
            \<lparr>demo_key = k,
             demo_Unique_Customers = nunique (map Customer_ID g),
             demo_Total_Revenue = round2 (sum_list (map Total_Amount g)),
             demo_Avg_Order_Value = map_option round2 (mean (map Total_Amount g)),
             demo_Total_Orders = length g\<rparr>)
         (groupby (\<lambda>r. the (Customer_Age_Group r))
            (filter (\<lambda>r. Customer_Age_Group r \<noteq> None) df))"

inductive analyze_customer_demographics :: "frame \<Rightarrow> demo_row list \<Rightarrow> bool" where
  "sort_values_desc demo_Total_Revenue (agg_demographics df) t
     \<Longrightarrow> analyze_customer_demographics df t"

subsection \<open>Payment methods\<close>

text \<open>
  \<open>count\<close> of a column is the number of its non-missing cells; \<open>Total_Amount\<close> and
  \<open>Order_ID\<close> have none missing, so each count is the length of the group's column.
\<close>

definition count_col :: "'a list \<Rightarrow> nat" where
  "count_col xs = length xs"

record pay_stats =
  pay_key :: string
  pay_Total_Revenue :: real
  pay_Transaction_Count :: nat
  pay_Order_Count :: nat

record pay_row = pay_stats +
  pay_Usage :: "real option"

definition agg_payments :: "frame \<Rightarrow> pay_stats list" where
  "agg_payments df =
     map (\<lambda>(k, g).
            \<lparr>pay_key = k,
             pay_Total_Revenue = round2 (sum_list (map Total_Amount g)),
             pay_Transaction_Count = count_col (map Total_Amount g),
             pay_Order_Count = count_col (map Order_ID g)\<rparr>)
         (groupby Payment_Method df)"

definition add_usage :: "pay_stats list \<Rightarrow> pay_row list" where
  "add_usage t =
     map (\<lambda>r. \<lparr>pay_key = pay_key r,
                pay_Total_Revenue = pay_Total_Revenue r,
                pay_Transaction_Count = pay_Transaction_Count r,
                pay_Order_Count = pay_Order_Count r,
                pay_Usage =
                  map_option (\<lambda>q. round2 (q * 100))
                    (np_divide (real (pay_Order_Count r))
                       (real (sum_list (map pay_Order_Count t))))\<rparr>) t"

inductive analyze_payment_methods :: "frame \<Rightarrow> pay_row list \<Rightarrow> bool" where
  "sort_values_desc pay_Total_Revenue (agg_payments df) t
     \<Longrightarrow> analyze_payment_methods df (add_usage t)"

text \<open>The sum of a column skips its NaN cells.\<close>

definition nansum :: "real option list \<Rightarrow> real" where
  "nansum xs = sum_list (map (\<lambda>x. case x of None \<Rightarrow> 0 | Some v \<Rightarrow> v) xs)"

section \<open>Insights report (insights\_generator.py)\<close>

text \<open>
  The report is text assembled from facts read off the tables. The model keeps the facts and
  the order in which they are read; a lookup of the first row of an empty table raises
  \<open>IndexError\<close>, \<open>idxmax\<close> and \<open>idxmin\<close> of an empty column raise \<open>ValueError\<close>. The report
  file is written only after every fact has been read.
\<close>

definition first_row :: "'a list \<Rightarrow> py_error + 'a" where
  "first_row t = (case t of [] \<Rightarrow> Inl IndexError | r # _ \<Rightarrow> Inr r)"

fun arg_best :: "(real \<Rightarrow> real \<Rightarrow> bool) \<Rightarrow> 'a period_row \<Rightarrow> 'a period_row list \<Rightarrow> 'a period_row"
  where
  "arg_best better b [] = b"
| "arg_best better b (r # rs) =
     arg_best better (if better (per_Revenue r) (per_Revenue b) then r else b) rs"

definition idxmax :: "'a period_row list \<Rightarrow> py_error + 'a period_row" where
  "idxmax t = (case t of [] \<Rightarrow> Inl ValueError | r # rs \<Rightarrow> Inr (arg_best (>) r rs))"

definition idxmin :: "'a period_row list \<Rightarrow> py_error + 'a period_row" where
  "idxmin t = (case t of [] \<Rightarrow> Inl ValueError | r # rs \<Rightarrow> Inr (arg_best (<) r rs))"

definition then_do :: "py_error + 'a \<Rightarrow> ('a \<Rightarrow> py_error + 'b) \<Rightarrow> py_error + 'b" where
  "then_do m f = (case m of Inl e \<Rightarrow> Inl e | Inr v \<Rightarrow> f v)"

record insights =
  top_category :: string
  top_category_revenue :: real
  top_category_share :: "real option"
  top_category_orders :: nat
  top_region :: string
  top_region_revenue :: real
  top_region_share :: "real option"
  top_product :: string
  top_product_revenue :: real
  top_product_orders :: nat
  top_age_group :: string
  top_age_revenue :: real
  top_age_customers :: nat
  top_payment :: string
  top_payment_usage :: "real option"
  best_month_idx :: "int \<times> nat"
  best_month_revenue :: real
  worst_month_idx :: "int \<times> nat"
  worst_month_revenue :: real
  focus_categories :: "string list"

definition generate_insights_report ::
  "frame \<Rightarrow> kpis \<Rightarrow> string grp_row list \<Rightarrow> string grp_row list \<Rightarrow> time_tables
     \<Rightarrow> prod_row list \<Rightarrow> demo_row list \<Rightarrow> pay_row list \<Rightarrow> py_error + insights" where
  "generate_insights_report df kpis category_analysis region_analysis time_analysis
       top_products demo_analysis payment_analysis =
     then_do (first_row category_analysis) (\<lambda>c.
     then_do (first_row region_analysis) (\<lambda>g.
     then_do (first_row top_products) (\<lambda>p.
     then_do (first_row demo_analysis) (\<lambda>a.
     then_do (first_row payment_analysis) (\<lambda>m.
     then_do (idxmax (monthly time_analysis)) (\<lambda>best.
     then_do (idxmin (monthly time_analysis)) (\<lambda>worst.
       Inr \<lparr>top_category = grp_key c,
            top_category_revenue = grp_Total_Revenue c,
            top_category_share = grp_Revenue_Share c,
            top_category_orders = grp_Order_Count c,
            top_region = grp_key g,
            top_region_revenue = grp_Total_Revenue g,
            top_region_share = grp_Revenue_Share g,
            top_product = fst (prod_key p),
            top_product_revenue = prod_Total_Revenue p,
            top_product_orders = prod_Order_Count p,
            top_age_group = demo_key a,
            top_age_revenue = demo_Total_Revenue a,
            top_age_customers = demo_Unique_Customers a,
            top_payment = pay_key m,
            top_payment_usage = pay_Usage m,
            best_month_idx = per_key best,
            best_month_revenue = per_Revenue best,
            worst_month_idx = per_key worst,
            worst_month_revenue = per_Revenue worst,
            focus_categories = map grp_key (head 3 category_analysis)\<rparr>)))))))"

section \<open>Notions used to state the properties\<close>

text \<open>Clamping a value to an interval, as the specification words the outlier rule.\<close>

definition clamp_to_bounds :: "real \<Rightarrow> real \<Rightarrow> real \<Rightarrow> real" where
  "clamp_to_bounds lo hi x = (if x < lo then lo else if x > hi then hi else x)"

text \<open>A frame none of whose amounts lies outside the bounds computed from its own quartiles.\<close>

definition outlier_free :: "frame \<Rightarrow> bool" where
  "outlier_free df =
     (case (quantile (map Total_Amount df) (1 / 4), quantile (map Total_Amount df) (3 / 4)) of
        (Some Q1, Some Q3) \<Rightarrow>
          list_all (\<lambda>r. Q1 - 1.5 * (Q3 - Q1) \<le> Total_Amount r
                        \<and> Total_Amount r \<le> Q3 + 1.5 * (Q3 - Q1)) df
      | _ \<Rightarrow> True)"

text \<open>Sample frames: one order, varied in the columns a scenario needs.\<close>

definition sample_row :: sales_row where
  "sample_row =
     \<lparr>Order_ID = ''ORD202401151000'',
      Order_Date = \<lparr>year_of = 2024, month_of = 1, day_of = 15\<rparr>,
      Customer_ID = ''CUST1000'',
      Product_Name = ''Fiction'',
      Category = ''Books'',
      Quantity = 1,
      Unit_Price = 10,
      Total_Amount = 10,
      Discount = 0,
      Region = ''Europe'',
      Payment_Method = ''PayPal'',
      Customer_Age_Group = Some ''26-35'',
      Derived = None\<rparr>"

definition books5 :: frame where
  "books5 = map (\<lambda>a. sample_row\<lparr>Total_Amount := a\<rparr>) [10, 20, 30, 1000, 15]"

definition tie2 :: frame where
  "tie2 = [sample_row\<lparr>Product_Name := ''Fiction'', Category := ''Books'', Total_Amount := 100\<rparr>,
           sample_row\<lparr>Product_Name := ''Puzzle'', Category := ''Toys'', Total_Amount := 100\<rparr>]"

definition six_categories :: frame where
  "six_categories =
     map (\<lambda>c. sample_row\<lparr>Category := c, Total_Amount := 100\<rparr>)
       [''Beauty'', ''Books'', ''Clothing'', ''Electronics'', ''Sports'', ''Toys'']"

text \<open>
  Tables for \<open>tie2\<close>: its category table with the two equal-revenue groups in descending key
  order, and its region table.
\<close>

definition tie2_category_table :: "string grp_row list" where
  "tie2_category_table =
     [\<lparr>grp_key = ''Toys'', grp_Total_Revenue = 100, grp_Avg_Order_Value = Some 100,
       grp_Order_Count = 1, grp_Total_Quantity = 1, grp_Revenue_Share = Some 50\<rparr>,
      \<lparr>grp_key = ''Books'', grp_Total_Revenue = 100, grp_Avg_Order_Value = Some 100,
       grp_Order_Count = 1, grp_Total_Quantity = 1, grp_Revenue_Share = Some 50\<rparr>]"

definition tie2_region_table :: "string grp_row list" where
  "tie2_region_table =
     [\<lparr>grp_key = ''Europe'', grp_Total_Revenue = 200, grp_Avg_Order_Value = Some 100,
       grp_Order_Count = 2, grp_Total_Quantity = 2, grp_Revenue_Share = Some 100\<rparr>]"

text \<open>The two rows of the product table of \<open>tie2\<close>.\<close>

definition tie2_fiction :: prod_row where
  "tie2_fiction =
     \<lparr>prod_key = (''Fiction'', ''Books''), prod_Total_Revenue = 100, prod_Order_Count = 1,
      prod_Total_Quantity = 1, prod_Avg_Price = Some 10\<rparr>"

definition tie2_puzzle :: prod_row where
  "tie2_puzzle =
     \<lparr>prod_key = (''Puzzle'', ''Toys''), prod_Total_Revenue = 100, prod_Order_Count = 1,
      prod_Total_Quantity = 1, prod_Avg_Price = Some 10\<rparr>"

text \<open>
  Four orders, one per category and product, with amounts 100, 100, 200 and 300 in ascending
  key order, and the tables the program returns for them: in the category table and in the
  product table the two groups of revenue 100 stand in descending key order.
\<close>

definition four_groups :: frame where
  "four_groups =
     [sample_row\<lparr>Product_Name := ''Lipstick'', Category := ''Beauty'', Total_Amount := 100\<rparr>,
      sample_row\<lparr>Product_Name := ''Mystery'', Category := ''Books'', Total_Amount := 100\<rparr>,
      sample_row\<lparr>Product_Name := ''Shorts'', Category := ''Clothing'', Total_Amount := 200\<rparr>,
      sample_row\<lparr>Product_Name := ''Tablet'', Category := ''Electronics'',
        Total_Amount := 300\<rparr>]"

definition four_groups_category_table :: "string grp_row list" where
  "four_groups_category_table =
     [\<lparr>grp_key = ''Electronics'', grp_Total_Revenue = 300, grp_Avg_Order_Value = Some 300,
       grp_Order_Count = 1, grp_Total_Quantity = 1, grp_Revenue_Share = Some 42.86\<rparr>,
      \<lparr>grp_key = ''Clothing'', grp_Total_Revenue = 200, grp_Avg_Order_Value = Some 200,
       grp_Order_Count = 1, grp_Total_Quantity = 1, grp_Revenue_Share = Some 28.57\<rparr>,
      \<lparr>grp_key = ''Books'', grp_Total_Revenue = 100, grp_Avg_Order_Value = Some 100,
       grp_Order_Count = 1, grp_Total_Quantity = 1, grp_Revenue_Share = Some 14.29\<rparr>,
      \<lparr>grp_key = ''Beauty'', grp_Total_Revenue = 100, grp_Avg_Order_Value = Some 100,
       grp_Order_Count = 1, grp_Total_Quantity = 1, grp_Revenue_Share = Some 14.29\<rparr>]"

definition four_groups_region_table :: "string grp_row list" where
  "four_groups_region_table =
     [\<lparr>grp_key = ''Europe'', grp_Total_Revenue = 700, grp_Avg_Order_Value = Some 175,
       grp_Order_Count = 4, grp_Total_Quantity = 4, grp_Revenue_Share = Some 100\<rparr>]"

definition four_lipstick :: prod_row where
  "four_lipstick =
     \<lparr>prod_key = (''Lipstick'', ''Beauty''), prod_Total_Revenue = 100, prod_Order_Count = 1,
      prod_Total_Quantity = 1, prod_Avg_Price = Some 10\<rparr>"

definition four_mystery :: prod_row where
  "four_mystery =
     \<lparr>prod_key = (''Mystery'', ''Books''), prod_Total_Revenue = 100, prod_Order_Count = 1,
      prod_Total_Quantity = 1, prod_Avg_Price = Some 10\<rparr>"

definition four_shorts :: prod_row where
  "four_shorts =
     \<lparr>prod_key = (''Shorts'', ''Clothing''), prod_Total_Revenue = 200, prod_Order_Count = 1,
      prod_Total_Quantity = 1, prod_Avg_Price = Some 10\<rparr>"

definition four_tablet :: prod_row where
  "four_tablet =
     \<lparr>prod_key = (''Tablet'', ''Electronics''), prod_Total_Revenue = 300, prod_Order_Count = 1,
      prod_Total_Quantity = 1, prod_Avg_Price = Some 10\<rparr>"

section \<open>Properties of cleaning\<close>

lemma length_duplicated_from: "length (duplicated_from seen df) = length df"
  by (induction df arbitrary: seen) simp_all

lemma length_drop_duplicates:
  "length (drop_duplicates df) + length (filter id (duplicated df)) = length df"
proof -
  have "length (filter (\<lambda>(r, d). \<not> d) (zip xs bs)) + length (filter id bs) = length xs"
    if "length bs = length xs" for xs :: "'a list" and bs
    using that by (induction xs bs rule: list_induct2') simp_all
  then show ?thesis
    by (simp add: drop_duplicates_def duplicated_def length_duplicated_from)
qed

lemma length_handle_missing: "length (fst (handle_missing df)) = length df"
  by (simp add: handle_missing_def fillna_age_group_def Let_def)

lemma length_remove_duplicates:
  "length (fst (remove_duplicates df)) + snd (remove_duplicates df) = length df"
  using length_drop_duplicates [of df] by (simp add: remove_duplicates_def Let_def)

lemma length_handle_outliers: "length (fst (handle_outliers df)) = length df"
  by (simp add: handle_outliers_def Let_def split: option.splits)

lemma clean_sales_data_unfold:
  "clean_sales_data df =
     (add_derived (fst (handle_outliers (fst (remove_duplicates (fst (handle_missing df)))))),
      \<lparr>missing_filled = snd (handle_missing df),
       duplicates_removed = snd (remove_duplicates (fst (handle_missing df))),
       outliers_capped =
         snd (handle_outliers (fst (remove_duplicates (fst (handle_missing df)))))\<rparr>)"
  by (simp add: clean_sales_data_def split: prod.splits)

text \<open>
  C3: the cleaned frame has as many rows as the input minus the duplicates the report counts
  as removed; capping outliers removes no row.
\<close>

theorem clean_row_count:
  "length (fst (clean_sales_data df))
     = length df - duplicates_removed (snd (clean_sales_data df))
   \<and> duplicates_removed (snd (clean_sales_data df)) \<le> length df
   \<and> length (fst (handle_outliers d)) = length d"
proof -
  let ?d1 = "fst (handle_missing df)"
  have "length (fst (remove_duplicates ?d1)) + snd (remove_duplicates ?d1) = length df"
    using length_remove_duplicates [of ?d1] by (simp add: length_handle_missing)
  then show ?thesis
    by (simp add: clean_sales_data_unfold add_derived_def length_handle_outliers)
qed

text \<open>
  C8: the discount rate is total discount over total revenue times 100 when the revenue is
  positive and 0 otherwise; it is always a finite number, so no division by zero happens.
\<close>

theorem discount_rate_guarded:
  "Discount_Rate (calculate_kpis df) =
     Some (if sum_list (map Total_Amount df) > 0
           then sum_list (map Discount df) / sum_list (map Total_Amount df) * 100
           else 0)"
  by (simp add: calculate_kpis_def np_divide_def)

lemma quantile_mono:
  assumes q: "0 \<le> q1" "q1 \<le> q2" "q2 \<le> 1"
    and a: "quantile xs q1 = Some a" and b: "quantile xs q2 = Some b"
  shows "a \<le> b"
proof -
  define s where "s = sort xs"
  define n where "n = length s"
  have ne: "xs \<noteq> []" using a by (auto simp: quantile_def split: if_splits)
  then have n1: "1 \<le> n" by (cases xs) (simp_all add: n_def s_def)
  have srt: "sorted s" by (simp add: s_def)
  define h1 where "h1 = real (n - 1) * q1"
  define h2 where "h2 = real (n - 1) * q2"
  define j1 where "j1 = nat \<lfloor>h1\<rfloor>"
  define j2 where "j2 = nat \<lfloor>h2\<rfloor>"
  define k1 where "k1 = min (j1 + 1) (n - 1)"
  define k2 where "k2 = min (j2 + 1) (n - 1)"
  define g1 where "g1 = h1 - of_int \<lfloor>h1\<rfloor>"
  define g2 where "g2 = h2 - of_int \<lfloor>h2\<rfloor>"
  have aeq: "a = s ! j1 + (s ! k1 - s ! j1) * g1"
    using a ne by (simp add: quantile_def Let_def s_def n_def h1_def j1_def k1_def g1_def)
  have beq: "b = s ! j2 + (s ! k2 - s ! j2) * g2"
    using b ne by (simp add: quantile_def Let_def s_def n_def h2_def j2_def k2_def g2_def)
  have h1_0: "0 \<le> h1" using q by (simp add: h1_def)
  have h12: "h1 \<le> h2" using q by (simp add: h1_def h2_def mult_left_mono)
  have h2_n: "h2 \<le> real (n - 1)"
    using q mult_left_mono [of q2 1 "real (n - 1)"] by (simp add: h2_def)
  have f12: "\<lfloor>h1\<rfloor> \<le> \<lfloor>h2\<rfloor>" using h12 by (rule floor_mono)
  have f1_0: "0 \<le> \<lfloor>h1\<rfloor>" using h1_0 by simp
  have f2_n: "\<lfloor>h2\<rfloor> \<le> int (n - 1)" using h2_n by (simp add: floor_le_iff)
  have j12: "j1 \<le> j2" using f12 by (simp add: j1_def j2_def)
  have j2n: "j2 \<le> n - 1" using f2_n f1_0 f12 by (simp add: j2_def)
  have k2n: "k2 < n" "j2 \<le> k2" using n1 j2n by (simp_all add: k2_def)
  have k1n: "k1 < n" "j1 \<le> k1" using n1 j12 j2n by (simp_all add: k1_def)
  have g1b: "0 \<le> g1" "g1 < 1" by (simp_all add: g1_def) linarith
  have g2b: "0 \<le> g2" "g2 < 1" by (simp_all add: g2_def) linarith
  have d1: "0 \<le> s ! k1 - s ! j1"
    using sorted_nth_mono [OF srt k1n(2)] k1n(1) by (simp add: n_def)
  have d2: "0 \<le> s ! k2 - s ! j2"
    using sorted_nth_mono [OF srt k2n(2)] k2n(1) by (simp add: n_def)
  have a_hi: "a \<le> s ! k1"
    using mult_left_mono [OF less_imp_le [OF g1b(2)] d1] by (simp add: aeq)
  have b_lo: "s ! j2 \<le> b"
    using mult_nonneg_nonneg [OF d2 g2b(1)] by (simp add: beq)
  show ?thesis
  proof (cases "j1 = j2")
    case True
    then have "\<lfloor>h1\<rfloor> = \<lfloor>h2\<rfloor>" using f1_0 f12 unfolding j1_def j2_def by linarith
    then have "g1 \<le> g2" using h12 by (simp add: g1_def g2_def)
    then have "(s ! k1 - s ! j1) * g1 \<le> (s ! k1 - s ! j1) * g2"
      using d1 by (rule mult_left_mono)
    then show ?thesis using True by (simp add: aeq beq k1_def k2_def)
  next
    case False
    then have "j1 + 1 \<le> j2" using j12 by simp
    then have "k1 \<le> j2" by (simp add: k1_def)
    then have "s ! k1 \<le> s ! j2"
      using sorted_nth_mono [OF srt, of k1 j2] j2n n1 by (simp add: n_def)
    then show ?thesis using a_hi b_lo by simp
  qed
qed


lemma duplicated_from_distinct:
  "distinct df \<Longrightarrow> set df \<inter> set seen = {} \<Longrightarrow>
   duplicated_from seen df = replicate (length df) False"
  by (induction df arbitrary: seen) auto

lemma zip_replicate_False:
  "map fst (filter (\<lambda>(r, d). \<not> d) (zip df (replicate (length df) False))) = df"
  by (induction df) simp_all

lemma remove_duplicates_distinct: "distinct df \<Longrightarrow> remove_duplicates df = (df, 0)"
  by (simp add: remove_duplicates_def duplicated_def duplicated_from_distinct)

lemma amounts_handle_missing:
  "map Total_Amount (fst (handle_missing df)) = map Total_Amount df"
  by (simp add: handle_missing_def fillna_age_group_def Let_def comp_def split: option.splits)

lemma filter_length_0: "length (filter P xs) = 0 \<longleftrightarrow> (\<forall>x\<in>set xs. \<not> P x)"
  by (induction xs) auto

lemma handle_outliers_bounds:
  assumes q1: "quantile (map Total_Amount d) (1 / 4) = Some Q1"
    and q3: "quantile (map Total_Amount d) (3 / 4) = Some Q3"
    and lb: "lb = Q1 - 1.5 * (Q3 - Q1)" and ub: "ub = Q3 + 1.5 * (Q3 - Q1)"
  shows "handle_outliers d =
           (if length (filter (\<lambda>r. Total_Amount r < lb \<or> Total_Amount r > ub) d) > 0
            then (map (\<lambda>r. if Total_Amount r > ub then r\<lparr>Total_Amount := ub\<rparr> else r)
                   (map (\<lambda>r. if Total_Amount r < lb then r\<lparr>Total_Amount := lb\<rparr> else r) d),
                  length (filter (\<lambda>r. Total_Amount r < lb \<or> Total_Amount r > ub) d))
            else (d, 0))"
  unfolding handle_outliers_def q1 q3 lb ub by (simp add: Let_def)

lemma handle_outliers_clamp:
  assumes q1: "quantile (map Total_Amount d) (1 / 4) = Some Q1"
    and q3: "quantile (map Total_Amount d) (3 / 4) = Some Q3"
    and lb: "lb = Q1 - 1.5 * (Q3 - Q1)" and ub: "ub = Q3 + 1.5 * (Q3 - Q1)"
  shows "lb \<le> ub"
    and "fst (handle_outliers d) =
           map (\<lambda>r. r\<lparr>Total_Amount := clamp_to_bounds lb ub (Total_Amount r)\<rparr>) d"
    and "snd (handle_outliers d) =
           length (filter (\<lambda>r. Total_Amount r < lb \<or> Total_Amount r > ub) d)"
proof -
  note ho = handle_outliers_bounds [OF q1 q3 lb ub]
  have "Q1 \<le> Q3" using quantile_mono [OF _ _ _ q1 q3] by simp
  then show le: "lb \<le> ub" unfolding lb ub by argo
  show "snd (handle_outliers d) =
           length (filter (\<lambda>r. Total_Amount r < lb \<or> Total_Amount r > ub) d)"
    by (simp add: ho)
  show "fst (handle_outliers d) =
           map (\<lambda>r. r\<lparr>Total_Amount := clamp_to_bounds lb ub (Total_Amount r)\<rparr>) d"
  proof (cases "\<forall>r\<in>set d. \<not> (Total_Amount r < lb \<or> Total_Amount r > ub)")
    case True
    then have "map (\<lambda>r. r\<lparr>Total_Amount := clamp_to_bounds lb ub (Total_Amount r)\<rparr>) d
               = map (\<lambda>r. r) d"
      by (intro map_cong) (auto simp: clamp_to_bounds_def)
    moreover have "fst (handle_outliers d) = d"
      using True by (simp add: ho filter_length_0 [symmetric])
    ultimately show ?thesis by simp
  next
    case False
    then have "fst (handle_outliers d) =
       map (\<lambda>r. if Total_Amount r > ub then r\<lparr>Total_Amount := ub\<rparr> else r)
         (map (\<lambda>r. if Total_Amount r < lb then r\<lparr>Total_Amount := lb\<rparr> else r) d)"
      using filter_length_0 [of "\<lambda>r. Total_Amount r < lb \<or> Total_Amount r > ub" d]
      by (simp add: ho)
    also have "\<dots> = map (\<lambda>r. r\<lparr>Total_Amount := clamp_to_bounds lb ub (Total_Amount r)\<rparr>) d"
      using le by (auto simp: clamp_to_bounds_def)
    finally show ?thesis .
  qed
qed


lemma amounts_add_derived: "map Total_Amount (add_derived df) = map Total_Amount df"
  by (simp add: add_derived_def comp_def)

lemma quantile_scenario:
  "quantile [10, 20, 30, 1000, 15] (1 / 4) = Some 15"
  "quantile [10, 20, 30, 1000, 15] (3 / 4) = Some 30"
  by (simp_all add: quantile_def)

text \<open>
  C2: with \<open>d\<close> the frame that reaches the outlier step, \<open>Q1\<close> and \<open>Q3\<close> its quartiles by
  linear interpolation and the bounds \<open>Q1 - 1.5 * IQR\<close> and \<open>Q3 + 1.5 * IQR\<close>, every cleaned
  amount is the amount of \<open>d\<close> clamped to the bounds (the lower bound never exceeds the upper
  one, so a value outside goes to the nearer bound and a value inside stays), and the report
  counts the amounts outside. For any five records with amounts 10, 20, 30, 1000, 15 the
  quartiles are 15 and 30, only the 1000 becomes 52.5, and the total revenue is 127.5.
\<close>

theorem clean_caps_outliers:
  "(d = fst (remove_duplicates (fst (handle_missing df))) \<longrightarrow>
    quantile (map Total_Amount d) (1 / 4) = Some Q1 \<longrightarrow>
    quantile (map Total_Amount d) (3 / 4) = Some Q3 \<longrightarrow>
    lb = Q1 - 1.5 * (Q3 - Q1) \<longrightarrow> ub = Q3 + 1.5 * (Q3 - Q1) \<longrightarrow>
      lb \<le> ub
      \<and> map Total_Amount (fst (clean_sales_data df))
          = map (clamp_to_bounds lb ub) (map Total_Amount d)
      \<and> outliers_capped (snd (clean_sales_data df))
          = length (filter (\<lambda>x. x < lb \<or> x > ub) (map Total_Amount d)))
   \<and> (map Total_Amount df5 = [10, 20, 30, 1000, 15] \<longrightarrow>
        quantile (map Total_Amount df5) (1 / 4) = Some 15
        \<and> quantile (map Total_Amount df5) (3 / 4) = Some 30
        \<and> map Total_Amount (fst (clean_sales_data df5)) = [10, 20, 30, 52.5, 15]
        \<and> Total_Revenue (calculate_kpis (fst (clean_sales_data df5))) = 127.5)"
proof -
  have general:
    "lb \<le> ub
      \<and> map Total_Amount (fst (clean_sales_data df))
          = map (clamp_to_bounds lb ub) (map Total_Amount d)
      \<and> outliers_capped (snd (clean_sales_data df))
          = length (filter (\<lambda>x. x < lb \<or> x > ub) (map Total_Amount d))"
    if d: "d = fst (remove_duplicates (fst (handle_missing df)))"
      and q1: "quantile (map Total_Amount d) (1 / 4) = Some Q1"
      and q3: "quantile (map Total_Amount d) (3 / 4) = Some Q3"
      and lb: "lb = Q1 - 1.5 * (Q3 - Q1)" and ub: "ub = Q3 + 1.5 * (Q3 - Q1)"
    for df d Q1 Q3 lb ub
  proof -
    note c = handle_outliers_clamp [OF q1 q3 lb ub]
    have "map Total_Amount (fst (clean_sales_data df)) = map Total_Amount (fst (handle_outliers d))"
      by (simp add: clean_sales_data_unfold amounts_add_derived d)
    also have "\<dots> = map (clamp_to_bounds lb ub) (map Total_Amount d)"
      by (simp add: c(2) comp_def)
    finally have amounts: "map Total_Amount (fst (clean_sales_data df))
          = map (clamp_to_bounds lb ub) (map Total_Amount d)" .
    have "outliers_capped (snd (clean_sales_data df)) = snd (handle_outliers d)"
      by (simp add: clean_sales_data_unfold d)
    also have "\<dots> = length (filter (\<lambda>x. x < lb \<or> x > ub) (map Total_Amount d))"
      by (simp add: c(3) filter_map comp_def)
    finally show ?thesis using c(1) amounts by simp
  qed
  have scenario:
    "quantile (map Total_Amount df5) (1 / 4) = Some 15
        \<and> quantile (map Total_Amount df5) (3 / 4) = Some 30
        \<and> map Total_Amount (fst (clean_sales_data df5)) = [10, 20, 30, 52.5, 15]
        \<and> Total_Revenue (calculate_kpis (fst (clean_sales_data df5))) = 127.5"
    if a: "map Total_Amount df5 = [10, 20, 30, 1000, 15]"
  proof -
    define d1 where "d1 = fst (handle_missing df5)"
    have a1: "map Total_Amount d1 = [10, 20, 30, 1000, 15]"
      by (simp add: d1_def amounts_handle_missing a)
    have "distinct (map Total_Amount d1)" by (simp add: a1)
    then have "distinct d1" by (simp add: distinct_map)
    then have d: "d1 = fst (remove_duplicates (fst (handle_missing df5)))"
      by (simp add: remove_duplicates_distinct d1_def)
    have q1: "quantile (map Total_Amount d1) (1 / 4) = Some 15"
      and q3: "quantile (map Total_Amount d1) (3 / 4) = Some 30"
      by (simp_all add: a1 quantile_scenario)
    have lb: "- 7.5 = 15 - 1.5 * (30 - (15::real))" and ub: "52.5 = 30 + 1.5 * (30 - (15::real))"
      by simp_all
    from general [OF d q1 q3 lb ub]
    have "map Total_Amount (fst (clean_sales_data df5))
            = map (clamp_to_bounds (- 7.5) 52.5) [10, 20, 30, 1000, 15]"
      by (simp add: a1)
    then have res: "map Total_Amount (fst (clean_sales_data df5)) = [10, 20, 30, 52.5, 15]"
      by (simp add: clamp_to_bounds_def)
    have "Total_Revenue (calculate_kpis (fst (clean_sales_data df5))) = 127.5"
      by (simp add: calculate_kpis_def res)
    then show ?thesis using res by (simp add: a quantile_scenario)
  qed
  show ?thesis using general scenario by blast
qed

lemma books5_amounts: "map Total_Amount books5 = [10, 20, 30, 1000, 15]"
  by (simp add: books5_def)

lemma books5_pre: "fst (remove_duplicates (fst (handle_missing books5))) = books5"
proof -
  have "distinct (map Total_Amount books5)" by (simp add: books5_amounts)
  then have "distinct books5" by (simp add: distinct_map)
  moreover have "handle_missing books5 = (books5, 0)"
    by (simp add: handle_missing_def isnull_sum_def books5_def sample_row_def)
  ultimately show ?thesis by (simp add: remove_duplicates_distinct)
qed

theorem clean_caps_outliers_witness:
  "books5 = fst (remove_duplicates (fst (handle_missing books5)))
   \<and> quantile (map Total_Amount books5) (1 / 4) = Some 15
   \<and> quantile (map Total_Amount books5) (3 / 4) = Some 30
   \<and> map Total_Amount books5 = [10, 20, 30, 1000, 15]
   \<and> map Total_Amount (fst (clean_sales_data books5))
        = map (clamp_to_bounds (- 7.5) 52.5) (map Total_Amount books5)
   \<and> outliers_capped (snd (clean_sales_data books5)) = 1
   \<and> map Total_Amount (fst (clean_sales_data books5)) = [10, 20, 30, 52.5, 15]
   \<and> Total_Revenue (calculate_kpis (fst (clean_sales_data books5))) = 127.5"
proof -
  have q: "quantile (map Total_Amount books5) (1 / 4) = Some 15"
    "quantile (map Total_Amount books5) (3 / 4) = Some 30"
    by (simp_all add: books5_amounts quantile_scenario)
  have b: "- 7.5 = 15 - 1.5 * (30 - (15::real))" "52.5 = 30 + 1.5 * (30 - (15::real))"
    by simp_all
  note t = clean_caps_outliers [of books5 books5 15 30 "- 7.5" "52.5" books5]
  have "length (filter (\<lambda>x. x < - 7.5 \<or> x > 52.5) (map Total_Amount books5)) = 1"
    by (simp add: books5_amounts)
  then show ?thesis
    using t q b books5_pre books5_amounts by (simp add: clamp_to_bounds_def)
qed

lemma set_drop_duplicates: "set (drop_duplicates df) \<subseteq> set df"
  by (auto simp: drop_duplicates_def dest: set_zip_leftD)

lemma handle_missing_filled:
  "r \<in> set (fst (handle_missing df)) \<Longrightarrow> Customer_Age_Group r \<noteq> None"
proof -
  assume r: "r \<in> set (fst (handle_missing df))"
  show ?thesis
  proof (cases "isnull_sum df > 0")
    case True
    then have "r \<in> set (fillna_age_group df)" using r by (simp add: handle_missing_def)
    then show ?thesis by (auto simp: fillna_age_group_def split: option.splits)
  next
    case False
    then have "\<forall>x\<in>set df. Customer_Age_Group x \<noteq> None"
      using filter_length_0 [of "\<lambda>r. Customer_Age_Group r = None" df]
      by (simp add: isnull_sum_def)
    moreover have "r \<in> set df" using r False by (simp add: handle_missing_def)
    ultimately show ?thesis by blast
  qed
qed

lemma remove_duplicates_subset: "set (fst (remove_duplicates df)) \<subseteq> set df"
  using set_drop_duplicates [of df] by (simp add: remove_duplicates_def Let_def)

lemma handle_outliers_age_group:
  "map Customer_Age_Group (fst (handle_outliers df)) = map Customer_Age_Group df"
  by (simp add: handle_outliers_def Let_def comp_def split: option.splits)

lemma cleaned_no_missing:
  assumes "r \<in> set (fst (clean_sales_data raw))"
  shows "Customer_Age_Group r \<noteq> None"
proof -
  let ?d2 = "fst (remove_duplicates (fst (handle_missing raw)))"
  have "Customer_Age_Group r \<in> set (map Customer_Age_Group (fst (handle_outliers ?d2)))"
    using assms by (auto simp: clean_sales_data_unfold add_derived_def)
  then have "Customer_Age_Group r \<in> Customer_Age_Group ` set ?d2"
    by (simp add: handle_outliers_age_group)
  then show ?thesis
    using remove_duplicates_subset [of "fst (handle_missing raw)"] handle_missing_filled [of _ raw]
    by auto
qed

lemma cleaned_derived:
  assumes "r \<in> set (fst (clean_sales_data raw))"
  shows "Derived r = Some (derive r)"
  using assms by (auto simp: clean_sales_data_unfold add_derived_def derive_def)

lemma handle_missing_none: "(\<forall>r\<in>set df. Customer_Age_Group r \<noteq> None) \<Longrightarrow> handle_missing df = (df, 0)"
  using filter_length_0 [of "\<lambda>r. Customer_Age_Group r = None" df]
  by (simp add: handle_missing_def isnull_sum_def)

lemma handle_outliers_free: "outlier_free df \<Longrightarrow> handle_outliers df = (df, 0)"
proof (cases "quantile (map Total_Amount df) (1 / 4)")
  case None
  then show ?thesis by (simp add: handle_outliers_def)
next
  case q1: (Some Q1)
  assume f: "outlier_free df"
  show ?thesis
  proof (cases "quantile (map Total_Amount df) (3 / 4)")
    case None
    then show ?thesis by (simp add: handle_outliers_def q1)
  next
    case q3: (Some Q3)
    define lb where "lb = Q1 - 1.5 * (Q3 - Q1)"
    define ub where "ub = Q3 + 1.5 * (Q3 - Q1)"
    have "\<forall>r\<in>set df. lb \<le> Total_Amount r \<and> Total_Amount r \<le> ub"
      using f unfolding outlier_free_def q1 q3 lb_def ub_def by (simp add: list_all_iff)
    then have "\<forall>r\<in>set df. \<not> (Total_Amount r < lb \<or> Total_Amount r > ub)" by auto
    then have "length (filter (\<lambda>r. Total_Amount r < lb \<or> Total_Amount r > ub) df) = 0"
      by (simp only: filter_length_0)
    then show ?thesis
      by (simp add: handle_outliers_bounds [OF q1 q3 lb_def ub_def])
  qed
qed

lemma add_derived_fixed: "(\<forall>r\<in>set df. Derived r = Some (derive r)) \<Longrightarrow> add_derived df = df"
  by (simp add: add_derived_def map_idI)

text \<open>
  C9: a frame that is the output of cleaning (so it has the derived columns and no missing age
  group), has no two equal rows and no amount outside the bounds of its own quartiles, is
  returned unchanged by cleaning, and the three counts of the report are zero.
\<close>

theorem clean_idempotent:
  assumes "df = fst (clean_sales_data raw)" and "distinct df" and "outlier_free df"
  shows "clean_sales_data df
           = (df, \<lparr>missing_filled = 0, duplicates_removed = 0, outliers_capped = 0\<rparr>)"
proof -
  have "handle_missing df = (df, 0)"
    using assms(1) cleaned_no_missing by (intro handle_missing_none) blast
  moreover have "remove_duplicates df = (df, 0)"
    using assms(2) by (rule remove_duplicates_distinct)
  moreover have "handle_outliers df = (df, 0)"
    using assms(3) by (rule handle_outliers_free)
  moreover have "add_derived df = df"
    using assms(1) cleaned_derived by (intro add_derived_fixed) blast
  ultimately show ?thesis by (simp add: clean_sales_data_unfold)
qed

lemma books5_cleaned_amounts:
  "map Total_Amount (fst (clean_sales_data books5)) = [10, 20, 30, 52.5, 15]"
proof -
  have q: "quantile (map Total_Amount books5) (1 / 4) = Some 15"
    "quantile (map Total_Amount books5) (3 / 4) = Some 30"
    by (simp_all add: books5_amounts quantile_scenario)
  have b: "- 7.5 = 15 - 1.5 * (30 - (15::real))" "52.5 = 30 + 1.5 * (30 - (15::real))"
    by simp_all
  have "map Total_Amount (fst (clean_sales_data books5))
          = map Total_Amount (fst (handle_outliers books5))"
    by (simp add: clean_sales_data_unfold amounts_add_derived books5_pre)
  also have "\<dots> = map (clamp_to_bounds (- 7.5) 52.5) (map Total_Amount books5)"
    by (simp add: handle_outliers_clamp(2) [OF q b] comp_def)
  also have "\<dots> = [10, 20, 30, 52.5, 15]"
    by (simp add: books5_amounts clamp_to_bounds_def)
  finally show ?thesis .
qed

lemma outlier_free_amounts:
  "outlier_free df =
     (case (quantile (map Total_Amount df) (1 / 4), quantile (map Total_Amount df) (3 / 4)) of
        (Some Q1, Some Q3) \<Rightarrow>
          list_all (\<lambda>x. Q1 - 1.5 * (Q3 - Q1) \<le> x \<and> x \<le> Q3 + 1.5 * (Q3 - Q1))
            (map Total_Amount df)
      | _ \<Rightarrow> True)"
  by (simp add: outlier_free_def list_all_iff split: option.splits)

theorem clean_idempotent_witness:
  "distinct (fst (clean_sales_data books5))
   \<and> outlier_free (fst (clean_sales_data books5))
   \<and> clean_sales_data (fst (clean_sales_data books5))
       = (fst (clean_sales_data books5),
          \<lparr>missing_filled = 0, duplicates_removed = 0, outliers_capped = 0\<rparr>)"
proof -
  have "distinct (map Total_Amount (fst (clean_sales_data books5)))"
    by (simp add: books5_cleaned_amounts)
  then have d: "distinct (fst (clean_sales_data books5))" by (simp add: distinct_map)
  have f: "outlier_free (fst (clean_sales_data books5))"
    by (simp add: outlier_free_amounts books5_cleaned_amounts quantile_def)
  show ?thesis using clean_idempotent [OF refl d f] d f by simp
qed

section \<open>Properties of the analyses\<close>

lemma sort_values_desc_set: "sort_values_desc col t t' \<Longrightarrow> set t' = set t"
  by (auto simp: sort_values_desc_def dest: mset_eq_setD)

lemma sort_values_desc_length: "sort_values_desc col t t' \<Longrightarrow> length t' = length t"
  by (auto simp: sort_values_desc_def dest: mset_eq_length)

lemma sort_values_desc_sorted:
  "sort_values_desc col t t' \<Longrightarrow> sorted_wrt (\<lambda>a b. col a \<ge> col b) t'"
  by (simp add: sort_values_desc_def)

text \<open>A sorting routine exists: every table has a descending rearrangement.\<close>

lemma sort_values_desc_exists: "sort_values_desc col t (rev (sort_key col t))"
proof -
  have "sorted_wrt (\<lambda>a b. col a \<le> col b) (sort_key col t)"
    using sorted_sort_key [of col t] by (simp add: sorted_map)
  then show ?thesis
    by (simp add: sort_values_desc_def sorted_wrt_rev)
qed

lemma round2_whole: "round2 10 = 10" "round2 100 = 100" "round2 50 = 50"
  by (simp_all add: round2_def round_half_even_def)

lemma agg_payments_counts:
  "r \<in> set (agg_payments df) \<Longrightarrow> pay_Transaction_Count r = pay_Order_Count r"
  by (auto simp: agg_payments_def count_col_def)

text \<open>
  C10: in every payment-methods table the transaction count of a group equals its order
  count.
\<close>

theorem payment_counts_agree:
  assumes "analyze_payment_methods df res"
  shows "list_all (\<lambda>r. pay_Transaction_Count r = pay_Order_Count r) res"
  using assms
proof cases
  case (1 t)
  then have "set t = set (agg_payments df)" by (simp add: sort_values_desc_set)
  then have "\<forall>r\<in>set t. pay_Transaction_Count r = pay_Order_Count r"
    using agg_payments_counts by blast
  then show ?thesis by (simp add: 1(1) add_usage_def list_all_iff)
qed

lemma agg_payments_sample:
  "agg_payments [sample_row] =
     [\<lparr>pay_key = ''PayPal'', pay_Total_Revenue = 10, pay_Transaction_Count = 1,
       pay_Order_Count = 1\<rparr>]"
  by (simp add: agg_payments_def groupby_def sample_row_def count_col_def round2_whole)

lemma payments_sample:
  "analyze_payment_methods [sample_row]
     [\<lparr>pay_key = ''PayPal'', pay_Total_Revenue = 10, pay_Transaction_Count = 1,
       pay_Order_Count = 1, pay_Usage = Some 100\<rparr>]"
proof -
  have "sort_values_desc pay_Total_Revenue (agg_payments [sample_row]) (agg_payments [sample_row])"
    by (simp add: sort_values_desc_def agg_payments_sample)
  then have "analyze_payment_methods [sample_row] (add_usage (agg_payments [sample_row]))"
    by (rule analyze_payment_methods.intros)
  then show ?thesis
    by (simp add: agg_payments_sample add_usage_def np_divide_def round2_whole)
qed

theorem payment_counts_agree_witness:
  "analyze_payment_methods [sample_row]
     [\<lparr>pay_key = ''PayPal'', pay_Total_Revenue = 10, pay_Transaction_Count = 1,
       pay_Order_Count = 1, pay_Usage = Some 100\<rparr>]
   \<and> list_all (\<lambda>r. pay_Transaction_Count r = pay_Order_Count r)
       [\<lparr>pay_key = ''PayPal'', pay_Total_Revenue = 10, pay_Transaction_Count = 1,
         pay_Order_Count = 1, pay_Usage = Some 100\<rparr>]"
  using payment_counts_agree [OF payments_sample] payments_sample by simp

text \<open>
  C1, as the program behaves: on zero records \<open>calculate_kpis\<close> raises nothing and returns
  a KPI set whose totals, counts and discount rate are 0 and whose two averages are NaN; the
  report generator, given an empty category table, stops with \<open>IndexError\<close> at its
  first lookup, before a report exists.
\<close>

theorem empty_frame_behaviour:
  "Total_Revenue (calculate_kpis []) = 0
   \<and> Total_Orders (calculate_kpis []) = 0
   \<and> Average_Order_Value (calculate_kpis []) = None
   \<and> Total_Quantity_Sold (calculate_kpis []) = 0
   \<and> Average_Quantity_per_Order (calculate_kpis []) = None
   \<and> Total_Discount_Given (calculate_kpis []) = 0
   \<and> Discount_Rate (calculate_kpis []) = Some 0
   \<and> Unique_Customers (calculate_kpis []) = 0
   \<and> Unique_Products (calculate_kpis []) = 0
   \<and> Unique_Categories (calculate_kpis []) = 0
   \<and> generate_insights_report df k [] region_analysis time_analysis top_products
         demo_analysis payment_analysis = Inl IndexError"
  by (simp add: calculate_kpis_def mean_def nunique_def generate_insights_report_def
      then_do_def first_row_def)

theorem kpis_of_empty_frame:
  "calculate_kpis [] =
     \<lparr>Total_Revenue = 0, Total_Orders = 0, Average_Order_Value = None,
      Total_Quantity_Sold = 0, Average_Quantity_per_Order = None,
      Total_Discount_Given = 0, Discount_Rate = Some 0, Unique_Customers = 0,
      Unique_Products = 0, Unique_Categories = 0\<rparr>"
  by (simp add: calculate_kpis_def mean_def nunique_def)

lemma groupby_keys: "map fst (groupby key df) = sort (remdups (map key df))"
  by (simp add: groupby_def comp_def)

lemma groupby_rows: "(k, g) \<in> set (groupby key df) \<Longrightarrow> g = filter (\<lambda>r. key r = k) df"
  by (auto simp: groupby_def)

lemma agg_revenue_keys: "map grp_key (agg_revenue key df) = sort (remdups (map key df))"
  by (simp add: agg_revenue_def groupby_def comp_def)

lemma agg_revenue_sum:
  "r \<in> set (agg_revenue key df) \<Longrightarrow>
   grp_Total_Revenue r = round2 (sum_list (map Total_Amount (filter (\<lambda>x. key x = grp_key r) df)))"
  by (auto simp: agg_revenue_def groupby_def)

lemma add_revenue_share_cols:
  "map grp_key (add_revenue_share t) = map grp_key t"
  "map grp_Total_Revenue (add_revenue_share t) = map grp_Total_Revenue t"
  "length (add_revenue_share t) = length t"
  by (simp_all add: add_revenue_share_def comp_def)

lemma revenue_table_sorted:
  assumes s: "sort_values_desc grp_Total_Revenue (agg_revenue key df) t"
  shows "sorted_wrt (\<lambda>a b. grp_Total_Revenue a \<ge> grp_Total_Revenue b) (add_revenue_share t)"
    and "distinct (map grp_key (add_revenue_share t))"
    and "set (map grp_key (add_revenue_share t)) = key ` set df"
    and "\<forall>r\<in>set (add_revenue_share t).
           grp_Total_Revenue r
             = round2 (sum_list (map Total_Amount (filter (\<lambda>x. key x = grp_key r) df)))"
proof -
  have "sorted_wrt (\<lambda>a b. grp_Total_Revenue a \<ge> grp_Total_Revenue b) t"
    using s by (rule sort_values_desc_sorted)
  then show "sorted_wrt (\<lambda>a b. grp_Total_Revenue a \<ge> grp_Total_Revenue b) (add_revenue_share t)"
    by (simp add: add_revenue_share_def sorted_wrt_map)
  have m: "mset (map grp_key t) = mset (sort (remdups (map key df)))"
    using s by (simp add: sort_values_desc_def agg_revenue_keys [symmetric])
  have "distinct (map grp_key t)"
    using m mset_eq_imp_distinct_iff [of "map grp_key t" "sort (remdups (map key df))"] by simp
  then show "distinct (map grp_key (add_revenue_share t))" by (simp add: add_revenue_share_cols)
  have "set (map grp_key t) = set (sort (remdups (map key df)))"
    using m by (rule mset_eq_setD)
  then show "set (map grp_key (add_revenue_share t)) = key ` set df"
    by (simp add: add_revenue_share_cols)
  have "\<forall>r\<in>set t. grp_Total_Revenue r
             = round2 (sum_list (map Total_Amount (filter (\<lambda>x. key x = grp_key r) df)))"
    using sort_values_desc_set [OF s] agg_revenue_sum by blast
  then show "\<forall>r\<in>set (add_revenue_share t).
           grp_Total_Revenue r
             = round2 (sum_list (map Total_Amount (filter (\<lambda>x. key x = grp_key r) df)))"
    by (simp add: add_revenue_share_def)
qed

text \<open>
  C6, as the program behaves: the category table and the region table have one row per
  distinct key, each carrying the rounded sum of its group's amounts, in descending order of
  that revenue. The order of two groups of equal revenue is not fixed by the program: it is
  left to the sorting routine, which may put the larger key first.
\<close>

theorem revenue_tables_descending:
  "(analyze_by_category df res \<longrightarrow>
      sorted_wrt (\<lambda>a b. grp_Total_Revenue a \<ge> grp_Total_Revenue b) res
      \<and> distinct (map grp_key res) \<and> set (map grp_key res) = Category ` set df
      \<and> (\<forall>r\<in>set res. grp_Total_Revenue r
            = round2 (sum_list (map Total_Amount (filter (\<lambda>x. Category x = grp_key r) df)))))
   \<and> (analyze_by_region df res' \<longrightarrow>
      sorted_wrt (\<lambda>a b. grp_Total_Revenue a \<ge> grp_Total_Revenue b) res'
      \<and> distinct (map grp_key res') \<and> set (map grp_key res') = Region ` set df
      \<and> (\<forall>r\<in>set res'. grp_Total_Revenue r
            = round2 (sum_list (map Total_Amount (filter (\<lambda>x. Region x = grp_key r) df)))))"
proof (intro conjI impI)
  assume "analyze_by_category df res"
  then obtain t where t: "sort_values_desc grp_Total_Revenue (agg_revenue Category df) t"
    and res: "res = add_revenue_share t"
    by cases
  note r = revenue_table_sorted [OF t, folded res]
  show "sorted_wrt (\<lambda>a b. grp_Total_Revenue a \<ge> grp_Total_Revenue b) res" by (rule r(1))
  show "distinct (map grp_key res)" by (rule r(2))
  show "set (map grp_key res) = Category ` set df" by (rule r(3))
  show "\<forall>r\<in>set res. grp_Total_Revenue r
            = round2 (sum_list (map Total_Amount (filter (\<lambda>x. Category x = grp_key r) df)))"
    by (rule r(4))
next
  assume "analyze_by_region df res'"
  then obtain t where t: "sort_values_desc grp_Total_Revenue (agg_revenue Region df) t"
    and res: "res' = add_revenue_share t"
    by cases
  note r = revenue_table_sorted [OF t, folded res]
  show "sorted_wrt (\<lambda>a b. grp_Total_Revenue a \<ge> grp_Total_Revenue b) res'" by (rule r(1))
  show "distinct (map grp_key res')" by (rule r(2))
  show "set (map grp_key res') = Region ` set df" by (rule r(3))
  show "\<forall>r\<in>set res'. grp_Total_Revenue r
            = round2 (sum_list (map Total_Amount (filter (\<lambda>x. Region x = grp_key r) df)))"
    by (rule r(4))
qed

lemma agg_category_tie2:
  "agg_revenue Category tie2 =
     [\<lparr>grp_key = ''Books'', grp_Total_Revenue = 100, grp_Avg_Order_Value = Some 100,
       grp_Order_Count = 1, grp_Total_Quantity = 1\<rparr>,
      \<lparr>grp_key = ''Toys'', grp_Total_Revenue = 100, grp_Avg_Order_Value = Some 100,
       grp_Order_Count = 1, grp_Total_Quantity = 1\<rparr>]"
  by (simp add: agg_revenue_def groupby_def tie2_def sample_row_def mean_def round2_whole)

lemma agg_region_tie2:
  "agg_revenue Region tie2 =
     [\<lparr>grp_key = ''Europe'', grp_Total_Revenue = 200, grp_Avg_Order_Value = Some 100,
       grp_Order_Count = 2, grp_Total_Quantity = 2\<rparr>]"
  by (simp add: agg_revenue_def groupby_def tie2_def sample_row_def mean_def round2_def
      round_half_even_def)

lemma category_tie2_reversed: "analyze_by_category tie2 tie2_category_table"
proof -
  have "sort_values_desc grp_Total_Revenue (agg_revenue Category tie2) (rev (agg_revenue Category tie2))"
    by (simp add: sort_values_desc_def agg_category_tie2)
  then have "analyze_by_category tie2 (add_revenue_share (rev (agg_revenue Category tie2)))"
    by (rule analyze_by_category.intros)
  then show ?thesis
    by (simp add: agg_category_tie2 add_revenue_share_def np_divide_def round2_whole
        tie2_category_table_def)
qed

lemma region_tie2: "analyze_by_region tie2 tie2_region_table"
proof -
  have "sort_values_desc grp_Total_Revenue (agg_revenue Region tie2) (agg_revenue Region tie2)"
    by (simp add: sort_values_desc_def agg_region_tie2)
  then have "analyze_by_region tie2 (add_revenue_share (agg_revenue Region tie2))"
    by (rule analyze_by_region.intros)
  then show ?thesis
    by (simp add: agg_region_tie2 add_revenue_share_def np_divide_def round2_whole
        tie2_region_table_def)
qed

lemma round2_hundreds:
  "round2 200 = 200" "round2 300 = 300" "round2 700 = 700" "round2 175 = 175"
  by (simp_all add: round2_def round_half_even_def)

lemma round2_sevenths:
  "round2 (300 / 7) = 42.86" "round2 (200 / 7) = 28.57" "round2 (100 / 7) = 14.29"
  by (simp_all add: round2_def round_half_even_def)

lemma agg_category_four_groups:
  "agg_revenue Category four_groups =
     [\<lparr>grp_key = ''Beauty'', grp_Total_Revenue = 100, grp_Avg_Order_Value = Some 100,
       grp_Order_Count = 1, grp_Total_Quantity = 1\<rparr>,
      \<lparr>grp_key = ''Books'', grp_Total_Revenue = 100, grp_Avg_Order_Value = Some 100,
       grp_Order_Count = 1, grp_Total_Quantity = 1\<rparr>,
      \<lparr>grp_key = ''Clothing'', grp_Total_Revenue = 200, grp_Avg_Order_Value = Some 200,
       grp_Order_Count = 1, grp_Total_Quantity = 1\<rparr>,
      \<lparr>grp_key = ''Electronics'', grp_Total_Revenue = 300, grp_Avg_Order_Value = Some 300,
       grp_Order_Count = 1, grp_Total_Quantity = 1\<rparr>]"
  by (simp add: agg_revenue_def groupby_def four_groups_def sample_row_def mean_def
      round2_whole round2_hundreds)

lemma agg_region_four_groups:
  "agg_revenue Region four_groups =
     [\<lparr>grp_key = ''Europe'', grp_Total_Revenue = 700, grp_Avg_Order_Value = Some 175,
       grp_Order_Count = 4, grp_Total_Quantity = 4\<rparr>]"
  by (simp add: agg_revenue_def groupby_def four_groups_def sample_row_def mean_def
      round2_hundreds)

lemma category_four_groups: "analyze_by_category four_groups four_groups_category_table"
proof -
  have "sort_values_desc grp_Total_Revenue (agg_revenue Category four_groups)
          (rev (agg_revenue Category four_groups))"
    by (simp add: sort_values_desc_def agg_category_four_groups)
  then have "analyze_by_category four_groups
               (add_revenue_share (rev (agg_revenue Category four_groups)))"
    by (rule analyze_by_category.intros)
  then show ?thesis
    by (simp add: agg_category_four_groups add_revenue_share_def np_divide_def
        round2_sevenths four_groups_category_table_def)
qed

lemma region_four_groups: "analyze_by_region four_groups four_groups_region_table"
proof -
  have "sort_values_desc grp_Total_Revenue (agg_revenue Region four_groups)
          (agg_revenue Region four_groups)"
    by (simp add: sort_values_desc_def agg_region_four_groups)
  then have "analyze_by_region four_groups (add_revenue_share (agg_revenue Region four_groups))"
    by (rule analyze_by_region.intros)
  then show ?thesis
    by (simp add: agg_region_four_groups add_revenue_share_def np_divide_def round2_whole
        four_groups_region_table_def)
qed

theorem revenue_tables_descending_witness:
  "analyze_by_category four_groups four_groups_category_table
   \<and> analyze_by_region four_groups four_groups_region_table
   \<and> sorted_wrt (\<lambda>a b. grp_Total_Revenue a \<ge> grp_Total_Revenue b) four_groups_category_table
   \<and> set (map grp_key four_groups_category_table) = Category ` set four_groups
   \<and> sorted_wrt (\<lambda>a b. grp_Total_Revenue a \<ge> grp_Total_Revenue b) four_groups_region_table
   \<and> set (map grp_key four_groups_region_table) = Region ` set four_groups"
  using revenue_tables_descending
      [of four_groups four_groups_category_table four_groups_region_table]
    category_four_groups region_four_groups
  by blast

theorem category_tie_order_counterexample:
  "analyze_by_category four_groups four_groups_category_table
   \<and> map grp_key four_groups_category_table
       = [''Electronics'', ''Clothing'', ''Books'', ''Beauty'']
   \<and> map grp_Total_Revenue four_groups_category_table = [300, 200, 100, 100]
   \<and> ''Beauty'' < ''Books''"
  using category_four_groups by (simp add: four_groups_category_table_def)

lemma head_positive: "0 < n \<Longrightarrow> head n t = take (nat n) t"
  by (simp add: head_def)

lemma set_head_subset: "set (head n t) \<subseteq> set t"
  by (auto simp: head_def dest: in_set_takeD)

lemma sorted_wrt_take_drop:
  assumes "sorted_wrt P t" and "x \<in> set (take k t)" and "y \<in> set (drop k t)"
  shows "P x y"
proof -
  have "sorted_wrt P (take k t @ drop k t)" using assms(1) by simp
  then show ?thesis using assms(2,3) unfolding sorted_wrt_append by blast
qed

text \<open>
  C5, as the program behaves: for a positive \<open>n\<close> the table has at most \<open>n\<close> rows, all of them
  rows of the grouped product table, and the revenue of every row kept is at least the
  revenue of every row left out. Which of several equal-revenue groups is kept at the
  boundary is not fixed by the program: it is left to the sorting routine, which may keep
  the larger key and leave out the smaller one.
\<close>

theorem top_products_truncation:
  assumes "analyze_top_products df n res" and "0 < n"
  shows "length res \<le> nat n
         \<and> set res \<subseteq> set (agg_products df)
         \<and> (\<forall>r\<in>set res. \<forall>e\<in>set (agg_products df) - set res.
               prod_Total_Revenue e \<le> prod_Total_Revenue r)"
  using assms(1)
proof cases
  case (1 t)
  have res: "res = take (nat n) t" using 1(1) assms(2) by (simp add: head_positive)
  have st: "set t = set (agg_products df)" using 1(2) by (rule sort_values_desc_set)
  have srt: "sorted_wrt (\<lambda>a b. prod_Total_Revenue a \<ge> prod_Total_Revenue b) t"
    using 1(2) by (rule sort_values_desc_sorted)
  have "prod_Total_Revenue e \<le> prod_Total_Revenue r"
    if r: "r \<in> set res" and e: "e \<in> set (agg_products df) - set res" for r e
  proof -
    have "e \<in> set (take (nat n) t @ drop (nat n) t)" using e st by simp
    then have "e \<in> set (take (nat n) t) \<union> set (drop (nat n) t)" by (simp only: set_append)
    then have "e \<in> set (drop (nat n) t)" using e res by blast
    then show ?thesis using sorted_wrt_take_drop [OF srt] r res by blast
  qed
  moreover have "set res \<subseteq> set (agg_products df)"
    using st res by (auto dest: in_set_takeD)
  moreover have "length res \<le> nat n" by (simp add: res)
  ultimately show ?thesis by blast
qed

lemma agg_products_tie2: "agg_products tie2 = [tie2_fiction, tie2_puzzle]"
  by (simp add: agg_products_def groupby_def tie2_def sample_row_def mean_def round2_whole
      tie2_fiction_def tie2_puzzle_def)

lemma agg_products_four_groups:
  "agg_products four_groups = [four_lipstick, four_mystery, four_shorts, four_tablet]"
  by (simp add: agg_products_def groupby_def four_groups_def sample_row_def mean_def
      round2_whole round2_hundreds four_lipstick_def four_mystery_def four_shorts_def
      four_tablet_def)

lemma sort_products_four_groups:
  "sort_values_desc prod_Total_Revenue (agg_products four_groups)
     [four_tablet, four_shorts, four_mystery, four_lipstick]"
  by (simp add: sort_values_desc_def agg_products_four_groups four_lipstick_def
      four_mystery_def four_shorts_def four_tablet_def)

lemma top3_four_groups:
  "analyze_top_products four_groups 3 [four_tablet, four_shorts, four_mystery]"
  using analyze_top_products.intros [OF sort_products_four_groups, of 3]
  by (simp add: head_def)

lemma excluded_four_groups:
  "set (agg_products four_groups) - set [four_tablet, four_shorts, four_mystery]
     = {four_lipstick}"
  by (auto simp: agg_products_four_groups four_lipstick_def four_mystery_def four_shorts_def
      four_tablet_def)

theorem top_products_truncation_witness:
  "analyze_top_products four_groups 3 [four_tablet, four_shorts, four_mystery] \<and> (0::int) < 3
   \<and> length [four_tablet, four_shorts, four_mystery] \<le> nat 3
   \<and> set (agg_products four_groups) - set [four_tablet, four_shorts, four_mystery]
       = {four_lipstick}
   \<and> prod_Total_Revenue four_lipstick \<le> prod_Total_Revenue four_tablet
   \<and> prod_Total_Revenue four_lipstick \<le> prod_Total_Revenue four_shorts
   \<and> prod_Total_Revenue four_lipstick \<le> prod_Total_Revenue four_mystery"
proof -
  have pos: "(0::int) < 3" by simp
  have e: "four_lipstick
             \<in> set (agg_products four_groups) - set [four_tablet, four_shorts, four_mystery]"
    by (simp only: excluded_four_groups singletonI)
  have "four_tablet \<in> set [four_tablet, four_shorts, four_mystery]"
    "four_shorts \<in> set [four_tablet, four_shorts, four_mystery]"
    "four_mystery \<in> set [four_tablet, four_shorts, four_mystery]"
    by simp_all
  then have "prod_Total_Revenue four_lipstick \<le> prod_Total_Revenue four_tablet"
    "prod_Total_Revenue four_lipstick \<le> prod_Total_Revenue four_shorts"
    "prod_Total_Revenue four_lipstick \<le> prod_Total_Revenue four_mystery"
    using top_products_truncation [OF top3_four_groups pos] e by blast+
  then show ?thesis using top3_four_groups excluded_four_groups by simp
qed

theorem top_products_tie_counterexample:
  "analyze_top_products four_groups 3 [four_tablet, four_shorts, four_mystery]
   \<and> set (agg_products four_groups) - set [four_tablet, four_shorts, four_mystery]
       = {four_lipstick}
   \<and> prod_Total_Revenue four_lipstick = prod_Total_Revenue four_mystery
   \<and> prod_key four_lipstick < prod_key four_mystery"
  using top3_four_groups excluded_four_groups
  by (simp add: four_lipstick_def four_mystery_def)

text \<open>
  C7, as the program behaves: a top-N parameter that is zero or negative is not rejected.
  The operation always has a result; for \<open>n = 0\<close> it is the empty table, and for a negative
  \<open>n\<close> it is the sorted product table without its last \<open>-n\<close> rows.
\<close>

theorem top_products_nonpositive:
  "(\<exists>r. analyze_top_products df n r)
   \<and> (analyze_top_products df n res \<longrightarrow> n \<le> 0 \<longrightarrow>
        (if n = 0 then res = []
         else length res = length (agg_products df) - nat (- n)
              \<and> (\<exists>t. sort_values_desc prod_Total_Revenue (agg_products df) t
                       \<and> res = take (length t - nat (- n)) t))
        \<and> set res \<subseteq> set (agg_products df))"
proof (intro conjI impI)
  show "\<exists>r. analyze_top_products df n r"
    using analyze_top_products.intros [OF sort_values_desc_exists] by blast
next
  assume a: "analyze_top_products df n res" and n: "n \<le> 0"
  from a obtain t where res: "res = head n t"
    and t: "sort_values_desc prod_Total_Revenue (agg_products df) t"
    by cases
  show "if n = 0 then res = []
        else length res = length (agg_products df) - nat (- n)
             \<and> (\<exists>t. sort_values_desc prod_Total_Revenue (agg_products df) t
                      \<and> res = take (length t - nat (- n)) t)"
  proof (cases "n = 0")
    case True
    then show ?thesis by (simp add: res head_def)
  next
    case False
    then have neg: "n < 0" using n by simp
    then have r: "res = take (length t - nat (- n)) t" by (simp add: res head_def)
    then have "length res = length (agg_products df) - nat (- n)"
      using sort_values_desc_length [OF t] by simp
    moreover have "\<exists>t. sort_values_desc prod_Total_Revenue (agg_products df) t
                      \<and> res = take (length t - nat (- n)) t"
      using t r by blast
    ultimately show ?thesis using False by simp
  qed
  show "set res \<subseteq> set (agg_products df)"
    using set_head_subset [of n t] sort_values_desc_set [OF t] by (simp add: res)
qed

lemma sort_products_tie2:
  "sort_values_desc prod_Total_Revenue (agg_products tie2) [tie2_fiction, tie2_puzzle]"
  by (simp add: sort_values_desc_def agg_products_tie2 tie2_fiction_def tie2_puzzle_def)

lemma top0_tie2: "analyze_top_products tie2 0 []"
  using analyze_top_products.intros [OF sort_products_tie2, of 0] by (simp add: head_def)

lemma top_minus1_tie2: "analyze_top_products tie2 (- 1) [tie2_fiction]"
  using analyze_top_products.intros [OF sort_products_tie2, of "- 1"] by (simp add: head_def)

theorem top_products_nonpositive_witness:
  "analyze_top_products tie2 (- 1) [tie2_fiction] \<and> (- 1 :: int) \<le> 0
   \<and> length [tie2_fiction] = length (agg_products tie2) - nat (- (- 1))
   \<and> (\<exists>t. sort_values_desc prod_Total_Revenue (agg_products tie2) t
            \<and> [tie2_fiction] = take (length t - nat (- (- 1))) t)
   \<and> set [tie2_fiction] \<subseteq> set (agg_products tie2)"
  using top_products_nonpositive [of tie2 "- 1" "[tie2_fiction]"] top_minus1_tie2
  by simp

theorem top_products_zero_counterexample:
  "analyze_top_products tie2 0 [] \<and> analyze_top_products tie2 (- 1) [tie2_fiction]"
  using top0_tie2 top_minus1_tie2 by simp

lemma round_half_even_error: "\<bar>real_of_int (round_half_even y) - y\<bar> \<le> 1 / 2"
proof -
  have "real_of_int \<lfloor>y\<rfloor> \<le> y" "y < real_of_int \<lfloor>y\<rfloor> + 1" by linarith+
  then show ?thesis by (auto simp: round_half_even_def Let_def)
qed

lemma round2_error: "\<bar>round2 x - x\<bar> \<le> 1 / 200"
proof -
  have "\<bar>real_of_int (round_half_even (x * 100)) - x * 100\<bar> \<le> 1 / 2"
    by (rule round_half_even_error)
  then show ?thesis by (simp add: round2_def field_simps abs_le_iff)
qed

lemma sum_round2_error:
  "\<bar>sum_list (map (\<lambda>r. round2 (g r)) t) - sum_list (map g t)\<bar> \<le> real (length t) / 200"
proof (induction t)
  case Nil
  then show ?case by simp
next
  case (Cons r t)
  define S where "S = sum_list (map (\<lambda>r. round2 (g r)) t)"
  define S' where "S' = sum_list (map g t)"
  have "\<bar>round2 (g r) - g r\<bar> \<le> 1 / 200" by (rule round2_error)
  moreover have "\<bar>S - S'\<bar> \<le> real (length t) / 200" using Cons by (simp add: S_def S'_def)
  ultimately have "\<bar>(round2 (g r) + S) - (g r + S')\<bar> \<le> 1 / 200 + real (length t) / 200"
    by linarith
  then show ?case by (simp add: S_def S'_def add_divide_distrib)
qed

lemma sum_list_scaled:
  "sum_list (map (\<lambda>r. f r / T * 100) t) = sum_list (map f t) / T * (100::real)"
  by (induction t) (simp_all add: add_divide_distrib distrib_right)

lemma nansum_Some: "nansum (map (\<lambda>r. Some (f r)) t) = sum_list (map f t)"
  by (simp add: nansum_def comp_def)

lemma shares_sum_bound:
  fixes f :: "'a \<Rightarrow> real"
  assumes "sum_list (map f t) \<noteq> 0"
  shows "\<bar>sum_list (map (\<lambda>r. round2 (f r / sum_list (map f t) * 100)) t) - 100\<bar>
           \<le> real (length t) / 200"
proof -
  have "sum_list (map (\<lambda>r. f r / sum_list (map f t) * 100) t) = 100"
    unfolding sum_list_scaled using assms by simp
  then show ?thesis
    using sum_round2_error [of "\<lambda>r. f r / sum_list (map f t) * 100" t] by simp
qed

lemma revenue_share_sum:
  assumes "sum_list (map grp_Total_Revenue t) \<noteq> 0"
  shows "\<bar>nansum (map grp_Revenue_Share (add_revenue_share t)) - 100\<bar> \<le> real (length t) / 200"
proof -
  have "map grp_Revenue_Share (add_revenue_share t)
          = map (\<lambda>r. Some (round2 (grp_Total_Revenue r / sum_list (map grp_Total_Revenue t) * 100))) t"
    using assms by (simp add: add_revenue_share_def np_divide_def comp_def)
  then show ?thesis
    using shares_sum_bound [OF assms] by (simp add: nansum_Some)
qed

lemma usage_sum:
  assumes "sum_list (map pay_Order_Count t) \<noteq> 0"
  shows "\<bar>nansum (map pay_Usage (add_usage t)) - 100\<bar> \<le> real (length t) / 200"
proof -
  let ?f = "\<lambda>r. real (pay_Order_Count r)"
  have s: "real (sum_list (map pay_Order_Count t)) = sum_list (map ?f t)"
    by (induction t) simp_all
  then have nz: "sum_list (map ?f t) \<noteq> 0" using assms by (metis of_nat_eq_0_iff)
  have "map pay_Usage (add_usage t)
          = map (\<lambda>r. Some (round2 (?f r / sum_list (map ?f t) * 100))) t"
    using nz by (simp add: add_usage_def np_divide_def comp_def s)
  then show ?thesis
    using shares_sum_bound [OF nz] by (simp add: nansum_Some)
qed

lemma add_usage_length: "length (add_usage t) = length t"
  by (simp add: add_usage_def)

lemma groupby_nonempty_group:
  assumes "df \<noteq> []"
  shows "\<exists>k g. (k, g) \<in> set (groupby key df) \<and> g \<noteq> []"
proof -
  obtain r rs where df: "df = r # rs" using assms by (cases df) auto
  have "(key r, filter (\<lambda>x. key x = key r) df) \<in> set (groupby key df)"
    by (auto simp: groupby_def df)
  moreover have "filter (\<lambda>x. key x = key r) df \<noteq> []" by (simp add: df)
  ultimately show ?thesis by blast
qed

lemma agg_payments_total_positive:
  assumes "df \<noteq> []"
  shows "sum_list (map pay_Order_Count (agg_payments df)) \<noteq> 0"
proof -
  obtain k g where kg: "(k, g) \<in> set (groupby Payment_Method df)" "g \<noteq> []"
    using groupby_nonempty_group [OF assms] by blast
  then have "length g \<in> set (map pay_Order_Count (agg_payments df))"
    by (force simp: agg_payments_def count_col_def)
  then have "length g \<le> sum_list (map pay_Order_Count (agg_payments df))"
    by (simp only: member_le_sum_list)
  moreover have "0 < length g" using kg(2) by simp
  ultimately show ?thesis by linarith
qed

lemma sort_values_desc_sum_nat:
  fixes f :: "'a \<Rightarrow> nat"
  assumes "sort_values_desc col t t'"
  shows "sum_list (map f t') = sum_list (map f t)"
proof -
  have "mset (map f t') = mset (map f t)" using assms by (simp add: sort_values_desc_def)
  then show ?thesis by (metis sum_mset_sum_list)
qed

text \<open>
  C4, as the program behaves: every share is rounded to 2 decimals on its own, so the shares
  of a table with \<open>k\<close> groups sum to 100 within \<open>0.005 * k\<close>, provided the revenue column
  of the table does not sum to zero (for the usage column: provided there is a record).
\<close>

theorem share_columns_sum:
  "(analyze_by_category df res \<longrightarrow> sum_list (map grp_Total_Revenue res) \<noteq> 0 \<longrightarrow>
      \<bar>nansum (map grp_Revenue_Share res) - 100\<bar> \<le> 0.005 * real (length res))
   \<and> (analyze_by_region df res' \<longrightarrow> sum_list (map grp_Total_Revenue res') \<noteq> 0 \<longrightarrow>
      \<bar>nansum (map grp_Revenue_Share res') - 100\<bar> \<le> 0.005 * real (length res'))
   \<and> (analyze_payment_methods df pres \<longrightarrow> df \<noteq> [] \<longrightarrow>
      \<bar>nansum (map pay_Usage pres) - 100\<bar> \<le> 0.005 * real (length pres))"
proof (intro conjI impI)
  assume "analyze_by_category df res" and nz: "sum_list (map grp_Total_Revenue res) \<noteq> 0"
  then obtain t where res: "res = add_revenue_share t" by cases
  have "sum_list (map grp_Total_Revenue t) \<noteq> 0" using nz by (simp add: res add_revenue_share_cols)
  then show "\<bar>nansum (map grp_Revenue_Share res) - 100\<bar> \<le> 0.005 * real (length res)"
    using revenue_share_sum [of t] by (simp add: res add_revenue_share_cols)
next
  assume "analyze_by_region df res'" and nz: "sum_list (map grp_Total_Revenue res') \<noteq> 0"
  then obtain t where res: "res' = add_revenue_share t" by cases
  have "sum_list (map grp_Total_Revenue t) \<noteq> 0" using nz by (simp add: res add_revenue_share_cols)
  then show "\<bar>nansum (map grp_Revenue_Share res') - 100\<bar> \<le> 0.005 * real (length res')"
    using revenue_share_sum [of t] by (simp add: res add_revenue_share_cols)
next
  assume "analyze_payment_methods df pres" and ne: "df \<noteq> []"
  then obtain t where res: "pres = add_usage t"
    and t: "sort_values_desc pay_Total_Revenue (agg_payments df) t"
    by cases
  have "sum_list (map pay_Order_Count t) \<noteq> 0"
    using agg_payments_total_positive [OF ne] sort_values_desc_sum_nat [OF t, of pay_Order_Count]
    by simp
  then show "\<bar>nansum (map pay_Usage pres) - 100\<bar> \<le> 0.005 * real (length pres)"
    using usage_sum [of t] by (simp add: res add_usage_length)
qed

lemma payments_tie2: "analyze_payment_methods tie2 (add_usage (agg_payments tie2))"
proof -
  have "agg_payments tie2 =
          [\<lparr>pay_key = ''PayPal'', pay_Total_Revenue = 200, pay_Transaction_Count = 2,
            pay_Order_Count = 2\<rparr>]"
    by (simp add: agg_payments_def groupby_def tie2_def sample_row_def count_col_def round2_def
        round_half_even_def)
  then have "sort_values_desc pay_Total_Revenue (agg_payments tie2) (agg_payments tie2)"
    by (simp add: sort_values_desc_def)
  then show ?thesis by (rule analyze_payment_methods.intros)
qed

theorem share_columns_sum_witness:
  "analyze_by_category tie2 tie2_category_table
   \<and> sum_list (map grp_Total_Revenue tie2_category_table) \<noteq> 0
   \<and> \<bar>nansum (map grp_Revenue_Share tie2_category_table) - 100\<bar>
       \<le> 0.005 * real (length tie2_category_table)
   \<and> analyze_by_region tie2 tie2_region_table
   \<and> sum_list (map grp_Total_Revenue tie2_region_table) \<noteq> 0
   \<and> \<bar>nansum (map grp_Revenue_Share tie2_region_table) - 100\<bar>
       \<le> 0.005 * real (length tie2_region_table)
   \<and> analyze_payment_methods tie2 (add_usage (agg_payments tie2))
   \<and> tie2 \<noteq> []
   \<and> \<bar>nansum (map pay_Usage (add_usage (agg_payments tie2))) - 100\<bar>
       \<le> 0.005 * real (length (add_usage (agg_payments tie2)))"
proof -
  have c: "sum_list (map grp_Total_Revenue tie2_category_table) \<noteq> 0"
    by (simp add: tie2_category_table_def)
  have r: "sum_list (map grp_Total_Revenue tie2_region_table) \<noteq> 0"
    by (simp add: tie2_region_table_def)
  have n: "tie2 \<noteq> []" by (simp add: tie2_def)
  show ?thesis
    using share_columns_sum [of tie2 tie2_category_table tie2_region_table
        "add_usage (agg_payments tie2)"]
      category_tie2_reversed region_tie2 payments_tie2 c r n
    by blast
qed

lemma agg_six_categories:
  "agg_revenue Category six_categories =
     map (\<lambda>c. \<lparr>grp_key = c, grp_Total_Revenue = 100, grp_Avg_Order_Value = Some 100,
                grp_Order_Count = 1, grp_Total_Quantity = 1\<rparr>)
       [''Beauty'', ''Books'', ''Clothing'', ''Electronics'', ''Sports'', ''Toys'']"
  by (simp add: agg_revenue_def groupby_def six_categories_def sample_row_def mean_def
      round2_whole)

lemma round2_sixth: "round2 (50 / 3) = 1667 / 100"
  by (simp add: round2_def round_half_even_def)

lemma six_categories_shares:
  "map grp_Revenue_Share (add_revenue_share (agg_revenue Category six_categories))
     = [Some 16.67, Some 16.67, Some 16.67, Some 16.67, Some 16.67, Some 16.67]"
  by (simp add: agg_six_categories add_revenue_share_def np_divide_def round2_sixth)

lemma six_categories_table:
  "analyze_by_category six_categories (add_revenue_share (agg_revenue Category six_categories))"
proof -
  have "sort_values_desc grp_Total_Revenue (agg_revenue Category six_categories)
          (agg_revenue Category six_categories)"
    by (simp add: sort_values_desc_def agg_six_categories)
  then show ?thesis by (rule analyze_by_category.intros)
qed

theorem share_sum_counterexample:
  "analyze_by_category six_categories (add_revenue_share (agg_revenue Category six_categories))
   \<and> map grp_Revenue_Share (add_revenue_share (agg_revenue Category six_categories))
       = [Some 16.67, Some 16.67, Some 16.67, Some 16.67, Some 16.67, Some 16.67]
   \<and> nansum (map grp_Revenue_Share (add_revenue_share (agg_revenue Category six_categories)))
       = 100.02
   \<and> \<not> \<bar>nansum (map grp_Revenue_Share
                (add_revenue_share (agg_revenue Category six_categories))) - 100\<bar> \<le> 0.01"
  using six_categories_table by (simp add: six_categories_shares nansum_def)

end
